theory Spec2Isabelle
  imports Complex_Main "HOL-Library.Char_ord" "HOL-Library.List_Lexorder" "HOL-Library.Sublist"
begin

section \<open>Exceptions\<close>

text \<open>
  Python byte strings are lists of characters; a stream that was not captured is
  Python's \<open>None\<close>. A command is either one string or an argument vector
  (\<open>Union[str, List[str]]\<close>).
\<close>

type_synonym bytes = string

datatype cmd = CmdStr string | CmdList "string list"

text \<open>
  The exceptions of \<open>gprofiler/exceptions.py\<close> that \<open>utils.py\<close> raises, the
  built-in ones it raises or lets through, and \<open>Foreign\<close> for any other exception
  that a library call raises (named by its class).
  \<open>CalledProcessError\<close> carries \<open>returncode\<close>, \<open>cmd\<close>, \<open>stdout\<close>, \<open>stderr\<close>;
  \<open>TimeoutExpired\<close> carries \<open>cmd\<close> and \<open>timeout\<close>; \<open>OSError\<close> its \<open>errno\<close>;
  \<open>AssertionError\<close> the fixed part of the message of the \<open>assert\<close> statement
  (empty when it has none).
\<close>

datatype exc =
    StopEventSetException
  | ProcessStoppedException
  | TimeoutError
  | TimeoutExpired cmd rat
  | CalledProcessError int "string list" "bytes option" "bytes option"
  | AssertionError string
  | ValueError string
  | KeyError string
  | IndexError
  | OSError int
  | Foreign string

text \<open>\<open>str\<close> of an integer, in decimal.\<close>

fun str_nat :: "nat \<Rightarrow> string" where
  "str_nat n = (if n < 10 then [char_of (48 + n)] else str_nat (n div 10) @ [char_of (48 + n mod 10)])"

declare str_nat.simps [simp del]

definition str_int :: "int \<Rightarrow> string" where
  "str_int i = (if i < 0 then CHR ''-'' # str_nat (nat (- i)) else str_nat (nat i))"

section \<open>Namespace executor: \<open>is_same_ns\<close>, \<open>run_in_ns\<close>\<close>

text \<open>
  The kernel during one call. \<open>self_ns kind\<close> is the inode of \<open>/proc/self/ns/kind\<close>,
  the namespace of the leader of the thread group: the joins of the worker thread do not
  change it. \<open>proc_ns pid kind\<close> is the inode of \<open>/proc/pid/ns/kind\<close> (\<open>None\<close> when
  \<open>os.stat\<close> fails). \<open>thread_ns kind\<close> is the namespace the worker thread is in; it
  starts in those of the thread that created it. \<open>unshare_ok flag\<close> and
  \<open>setns_ok flag\<close> say whether the two system calls are permitted; \<open>new_ns\<close> is the
  inode of the namespace that a successful \<open>unshare\<close> creates. \<open>bind_errno net name\<close>
  is the \<open>errno\<close> with which binding the abstract socket name fails in the network
  namespace \<open>net\<close> (\<open>None\<close> when the bind succeeds).
\<close>

record kernel =
  self_ns :: "string \<Rightarrow> nat option"
  thread_ns :: "string \<Rightarrow> nat option"
  proc_ns :: "int \<Rightarrow> string \<Rightarrow> nat option"
  unshare_ok :: "int \<Rightarrow> bool"
  setns_ok :: "int \<Rightarrow> bool"
  new_ns :: nat
  bind_errno :: "nat option \<Rightarrow> string \<Rightarrow> int option"

text \<open>What the worker thread did, in order: the return codes are those of libc.\<close>

datatype event =
    Unshare string int
  | Setns string int
  | Callback

text \<open>\<open>os.stat(path).st_ino\<close> raises when the namespace file cannot be read.\<close>

definition stat_ino :: "nat option \<Rightarrow> exc + nat" where
  "stat_ino r = (case r of None \<Rightarrow> Inl (Foreign ''FileNotFoundError'') | Some i \<Rightarrow> Inr i)"

definition is_same_ns :: "kernel \<Rightarrow> int \<Rightarrow> string \<Rightarrow> exc + bool" where
  "is_same_ns k pid nstype =
     (case stat_ino (self_ns k nstype) of
        Inl e \<Rightarrow> Inl e
      | Inr a \<Rightarrow> (case stat_ino (proc_ns k pid nstype) of
                   Inl e \<Rightarrow> Inl e
                 | Inr b \<Rightarrow> Inr (a = b)))"

text \<open>The dictionary of clone flags inside \<open>_switch_and_run\<close>; a missing key raises.\<close>

definition ns_flag :: "string \<Rightarrow> int option" where
  "ns_flag nstype =
     (if nstype = ''mnt'' then Some 0x00020000
      else if nstype = ''net'' then Some 0x40000000
      else if nstype = ''pid'' then Some 0x20000000
      else if nstype = ''uts'' then Some 0x04000000
      else None)"

text \<open>
  The two libc calls: the return code is 0 on success, -1 otherwise; on success the
  namespace of that kind of the calling thread changes, and only that.
\<close>

definition libc_unshare :: "kernel \<Rightarrow> string \<Rightarrow> int \<Rightarrow> int \<times> kernel" where
  "libc_unshare k nstype flag =
     (if unshare_ok k flag
      then (0, k\<lparr>thread_ns := (thread_ns k)(nstype := Some (new_ns k))\<rparr>)
      else (- 1, k))"

definition libc_setns :: "kernel \<Rightarrow> int \<Rightarrow> string \<Rightarrow> int \<Rightarrow> int \<times> kernel" where
  "libc_setns k pid nstype flag =
     (if setns_ok k flag
      then (0, k\<lparr>thread_ns := (thread_ns k)(nstype := proc_ns k pid nstype)\<rparr>)
      else (- 1, k))"

text \<open>
  The reordering at the head of \<open>run_in_ns\<close>:
  \<open>sorted(nstypes, key=lambda ns: 1 if ns == "mnt" else 0)\<close>. Python's \<open>sorted\<close> is
  stable, as is \<open>sort_key\<close>.
\<close>

definition mnt_key :: "string \<Rightarrow> nat" where
  "mnt_key ns = (if ns = ''mnt'' then 1 else 0)"

definition order_nstypes :: "string list \<Rightarrow> string list" where
  "order_nstypes nstypes = sort_key mnt_key nstypes"

text \<open>
  The loop of \<open>_switch_and_run\<close> over the reordered kinds. It returns the exception
  that ended it, if any, the kernel state and the events so far.
\<close>

fun switch_ns :: "kernel \<Rightarrow> int \<Rightarrow> string list \<Rightarrow> exc option \<times> kernel \<times> event list" where
  "switch_ns k pid [] = (None, k, [])"
| "switch_ns k pid (nstype # rest) =
     (case is_same_ns k pid nstype of
        Inl e \<Rightarrow> (Some e, k, [])
      | Inr True \<Rightarrow> switch_ns k pid rest
      | Inr False \<Rightarrow>
          (case ns_flag nstype of
             None \<Rightarrow> (Some (KeyError nstype), k, [])
           | Some flag \<Rightarrow>
               (case libc_unshare k nstype flag of (rc1, k1) \<Rightarrow>
                  if rc1 \<noteq> 0
                  then (Some (ValueError (''Failed to unshare('' @ nstype @ '')'')), k1,
                        [Unshare nstype rc1])
                  else (case stat_ino (proc_ns k1 pid nstype) of
                          Inl e \<Rightarrow> (Some e, k1, [Unshare nstype rc1])
                        | Inr _ \<Rightarrow>
                            (case libc_setns k1 pid nstype flag of (rc2, k2) \<Rightarrow>
                               if rc2 \<noteq> 0
                               then (Some (ValueError (''Failed to setns('' @ nstype @ '') (to pid '' @
                                                 str_int pid @ '')'')), k2,
                                     [Unshare nstype rc1, Setns nstype rc2])
                               else (case switch_ns k2 pid rest of (r, k3, evs) \<Rightarrow>
                                       (r, k3, Unshare nstype rc1 # Setns nstype rc2 # evs)))))))"

text \<open>
  \<open>_switch_and_run\<close>: the joins, then \<open>ret = callback()\<close>. The callback runs in the
  kernel state the joins left and either raises or returns a value; Python's \<open>None\<close>
  is the value \<open>None\<close>. The result is the exception that ended the thread, if any, and
  the value of \<open>ret\<close>, which is \<open>None\<close> until the callback has returned.
\<close>

definition switch_and_run ::
  "kernel \<Rightarrow> int \<Rightarrow> string list \<Rightarrow> (kernel \<Rightarrow> exc + 'v option) \<Rightarrow>
     exc option \<times> 'v option \<times> event list" where
  "switch_and_run k pid nstypes callback =
     (case switch_ns k pid nstypes of
        (Some e, k', evs) \<Rightarrow> (Some e, None, evs)
      | (None, k', evs) \<Rightarrow>
          (case callback k' of
             Inl e \<Rightarrow> (Some e, None, evs @ [Callback])
           | Inr v \<Rightarrow> (None, v, evs @ [Callback])))"

text \<open>
  \<open>run_in_ns\<close>: the thread is started and joined. An exception that ends the thread is
  not passed to the caller (\<open>Thread.join\<close> returns normally); the caller gets \<open>ret\<close>.
\<close>

definition run_in_ns ::
  "kernel \<Rightarrow> string list \<Rightarrow> (kernel \<Rightarrow> exc + 'v option) \<Rightarrow> int \<Rightarrow> 'v option \<times> event list" where
  "run_in_ns k nstypes callback target_pid =
     (case switch_and_run k target_pid (order_nstypes nstypes) callback of
        (_, ret, evs) \<Rightarrow> (ret, evs))"

section \<open>System mutex: \<open>grab_gprofiler_mutex\<close>\<close>

text \<open>A bound socket: the address it is bound to and its close-on-exec flag.\<close>

record sock =
  bound_to :: string
  cloexec :: bool

definition GPROFILER_LOCK :: string where
  "GPROFILER_LOCK = CHR 0x00 # ''gprofiler_lock''"

text \<open>\<open>errno.EADDRINUSE\<close> on Linux.\<close>

definition EADDRINUSE :: int where
  "EADDRINUSE = 98"

text \<open>
  \<open>_take_lock\<close>, the callback: the bind happens in the network namespace the thread
  is in. The result \<open>Inr (Some (taken, socket))\<close> is the tuple it returns.
\<close>

definition take_lock :: "kernel \<Rightarrow> exc + (bool \<times> sock option) option" where
  "take_lock k =
     (case bind_errno k (thread_ns k ''net'') GPROFILER_LOCK of
        Some e \<Rightarrow> if e \<noteq> EADDRINUSE then Inl (OSError e) else Inr (Some (False, None))
      | None \<Rightarrow> Inr (Some (True, Some \<lparr>bound_to = GPROFILER_LOCK, cloexec = True\<rparr>)))"

definition msg_lock_error :: string where
  "msg_lock_error =
     ''Could not acquire gProfiler's lock due to an error. Are you running gProfiler in privileged mode?''"

definition msg_lock_taken :: string where
  "msg_lock_taken =
     ''Could not acquire gProfiler's lock. Is it already running?'' @
     '' Try 'sudo netstat -xp | grep gprofiler' to see which process holds the lock.''"

text \<open>
  \<open>grab_gprofiler_mutex\<close>: the result, the line printed to the standard error stream
  (empty when nothing is printed) and the global \<open>gprofiler_mutex\<close> afterwards.
\<close>

definition grab_gprofiler_mutex :: "kernel \<Rightarrow> sock option \<Rightarrow> (exc + bool) \<times> string \<times> sock option" where
  "grab_gprofiler_mutex k gprofiler_mutex =
     (case fst (run_in_ns k [''net''] take_lock 1) of
        None \<Rightarrow> (Inr False, msg_lock_error, gprofiler_mutex)
      | Some (True, s) \<Rightarrow>
          (case s of
             None \<Rightarrow> (Inl (AssertionError []), [], gprofiler_mutex)
           | Some h \<Rightarrow> (Inr True, [], Some h))
      | Some (False, _) \<Rightarrow> (Inr False, msg_lock_taken, gprofiler_mutex))"

section \<open>Process supervisor: \<open>start_process\<close>, \<open>run_process\<close>\<close>

text \<open>
  The arguments of \<open>run_process\<close>. \<open>has_stop_event\<close> says whether a stop event was
  passed (its state is read from the environment); \<open>suppress_log\<close> only selects debug
  log lines and is left out.
\<close>

record run_args =
  command :: cmd
  has_stop_event :: bool
  via_staticx :: bool
  check :: bool
  timeout :: "rat option"
  kill_signal :: int
  communicate :: bool
  stdin :: "bytes option"

text \<open>
  What the child does in one time slice, as a call of \<open>communicate\<close> or \<open>wait\<close> sees
  it: it exits with a return code and its captured output, it is still running at the
  end of the slice, or the call raises some other exception.
\<close>

datatype slice = Exited int "bytes option" "bytes option" | Running | Raises string

text \<open>
  One round of the polling loop: the slice, then \<open>stop_event.is_set()\<close> and
  \<open>time.monotonic()\<close> as read after it.
\<close>

record tick =
  child :: slice
  is_set :: bool
  now :: rat

text \<open>
  The environment of one call: \<open>STATICX_BUNDLE_DIR\<close>, the clock when the deadline is
  computed, the rounds, and whether the child terminates once it is sent a signal
  (so that the \<open>wait\<close> in the handler returns). When the rounds run out the call has
  not returned: the result is \<open>None\<close>.
\<close>

record proc_env =
  staticx_dir :: "string option"
  clock0 :: rat
  ticks :: "tick list"
  dies_on :: "int \<Rightarrow> bool"

text \<open>The calls made on the \<open>Popen\<close> object, in order.\<close>

datatype proc_op =
    Communicate "rat option" "bytes option"
  | Wait
  | SendSignal int
  | Poll
  | ContextExit

record popen =
  p_args :: "string list"
  clear_ld_library_path :: bool

definition start_process :: "string option \<Rightarrow> cmd \<Rightarrow> bool \<Rightarrow> popen" where
  "start_process sdir c via =
     (let argv = (case c of CmdStr s \<Rightarrow> [s] | CmdList l \<Rightarrow> l) in
      case sdir of
        None \<Rightarrow> \<lparr>p_args = argv, clear_ld_library_path = False\<rparr>
      | Some d \<Rightarrow>
          if via
          then \<lparr>p_args = [d @ ''/.staticx.interp'', ''--library-path'', d] @ argv,
                clear_ld_library_path = False\<rparr>
          else \<lparr>p_args = argv, clear_ld_library_path = True\<rparr>)"

text \<open>A call without a timeout blocks through the slices until the child exits.\<close>

fun blocking :: "tick list \<Rightarrow> (exc + int \<times> bytes option \<times> bytes option) option" where
  "blocking [] = None"
| "blocking (t # ts) =
     (case child t of
        Exited rc out err \<Rightarrow> Some (Inr (rc, out, err))
      | Raises n \<Rightarrow> Some (Inl (Foreign n))
      | Running \<Rightarrow> blocking ts)"

text \<open>The \<open>while True\<close> loop of the branch with a stop event.\<close>

fun poll_loop ::
  "run_args \<Rightarrow> rat option \<Rightarrow> tick list \<Rightarrow>
     ((exc + int \<times> bytes option \<times> bytes option) \<times> proc_op list) option" where
  "poll_loop a end_time [] = None"
| "poll_loop a end_time (t # ts) =
     (case child t of
        Exited rc out err \<Rightarrow> Some (Inr (rc, out, err), [Communicate (Some 1) (stdin a)])
      | Raises n \<Rightarrow> Some (Inl (Foreign n), [Communicate (Some 1) (stdin a)])
      | Running \<Rightarrow>
          if is_set t then Some (Inl ProcessStoppedException, [Communicate (Some 1) (stdin a)])
          else if end_time \<noteq> None \<and> now t > the end_time
          then (case timeout a of
                  None \<Rightarrow> Some (Inl (AssertionError []), [Communicate (Some 1) (stdin a)])
                | Some tmo \<Rightarrow> Some (Inl (TimeoutExpired (command a) tmo),
                                   [Communicate (Some 1) (stdin a)]))
          else (case poll_loop a end_time ts of
                  None \<Rightarrow> None
                | Some (r, ops) \<Rightarrow> Some (r, Communicate (Some 1) (stdin a) # ops)))"

text \<open>\<open>end_time\<close> of the branch with a stop event.\<close>

definition end_time_of :: "run_args \<Rightarrow> proc_env \<Rightarrow> rat option" where
  "end_time_of a env = (case timeout a of None \<Rightarrow> None | Some tmo \<Rightarrow> Some (clock0 env + tmo))"

text \<open>
  The body of the \<open>try\<close> statement. Sending the signal and waiting in the handler
  are taken not to raise.
\<close>

definition supervise ::
  "run_args \<Rightarrow> proc_env \<Rightarrow> ((exc + int \<times> bytes option \<times> bytes option) \<times> proc_op list) option" where
  "supervise a env =
     (if \<not> has_stop_event a then
        (if timeout a \<noteq> None then Some (Inl (AssertionError ''expected no timeout''), [])
         else if communicate a then
           (case blocking (ticks env) of
              None \<Rightarrow> None
            | Some r \<Rightarrow> Some (r, [Communicate (timeout a) (stdin a)]))
         else
           (case blocking (ticks env) of
              None \<Rightarrow> None
            | Some (Inl e) \<Rightarrow> Some (Inl e, [Wait])
            | Some (Inr (rc, _, _)) \<Rightarrow> Some (Inr (rc, None, None), [Wait])))
      else
        (if \<not> communicate a
         then Some (Inl (AssertionError ''expected communicate=True if stop_event is given''), [])
         else poll_loop a (end_time_of a env) (ticks env)))"

record completed =
  cp_args :: "string list"
  cp_returncode :: int
  cp_stdout :: "bytes option"
  cp_stderr :: "bytes option"

text \<open>
  \<open>run_process\<close>: the \<open>with\<close> block (the handler sends the kill signal, waits and
  raises again; leaving the block calls \<open>Popen.__exit__\<close>), then the check of the
  return code.
\<close>

definition run_process :: "run_args \<Rightarrow> proc_env \<Rightarrow> ((exc + completed) \<times> proc_op list) option" where
  "run_process a env =
     (let process = start_process (staticx_dir env) (command a) (via_staticx a) in
      case supervise a env of
        None \<Rightarrow> None
      | Some (Inl e, ops) \<Rightarrow>
          if dies_on env (kill_signal a)
          then Some (Inl e, ops @ [SendSignal (kill_signal a), Wait, ContextExit])
          else None
      | Some (Inr (retcode, out, err), ops) \<Rightarrow>
          if check a \<and> retcode \<noteq> 0
          then Some (Inl (CalledProcessError retcode (p_args process) out err),
                     ops @ [Poll, ContextExit])
          else Some (Inr \<lparr>cp_args = p_args process, cp_returncode = retcode,
                          cp_stdout = out, cp_stderr = err\<rparr>,
                     ops @ [Poll, ContextExit]))"


section \<open>\<open>CalledProcessError.__str__\<close>\<close>

text \<open>
  Python's conversions to text. \<open>repr\<close> of a string and of a byte string are the
  interpreter's and are taken as given, as is the table \<open>signal.Signals\<close> of the
  platform (the name of a signal number, \<open>None\<close> where the constructor raises
  \<open>ValueError\<close>).
\<close>

record py_text =
  repr_str :: "string \<Rightarrow> string"
  repr_bytes :: "bytes \<Rightarrow> string"
  signal_name :: "int \<Rightarrow> string option"

fun join_with :: "string \<Rightarrow> string list \<Rightarrow> string" where
  "join_with sep [] = []"
| "join_with sep [x] = x"
| "join_with sep (x # y # ys) = x @ sep @ join_with sep (y # ys)"

text \<open>\<open>str\<close> of a list of strings, and of captured output (bytes or \<open>None\<close>).\<close>

definition str_list :: "py_text \<Rightarrow> string list \<Rightarrow> string" where
  "str_list px xs = ''['' @ join_with '', '' (map (repr_str px) xs) @ '']''"

definition str_output :: "py_text \<Rightarrow> bytes option \<Rightarrow> string" where
  "str_output px b = (case b of None \<Rightarrow> ''None'' | Some x \<Rightarrow> repr_bytes px x)"

text \<open>\<open>repr\<close> of a member of the enumeration \<open>signal.Signals\<close>.\<close>

definition repr_signal :: "string \<Rightarrow> int \<Rightarrow> string" where
  "repr_signal name n = ''<Signals.'' @ name @ '': '' @ str_int n @ ''>''"

text \<open>The first line of the rendering (\<open>base\<close>), then the whole of \<open>__str__\<close>.\<close>

definition cpe_base :: "py_text \<Rightarrow> int \<Rightarrow> string list \<Rightarrow> string" where
  "cpe_base px returncode c =
     (if returncode \<noteq> 0 \<and> returncode < 0 then
        (case signal_name px (- returncode) of
           Some name \<Rightarrow>
             ''Command '' @ [CHR 0x27] @ str_list px c @ [CHR 0x27] @ '' died with '' @
             repr_signal name (- returncode) @ ''.''
         | None \<Rightarrow>
             ''Command '' @ [CHR 0x27] @ str_list px c @ [CHR 0x27] @
             '' died with unknown signal '' @ str_int (- returncode) @ ''.'')
      else
        ''Command '' @ [CHR 0x27] @ str_list px c @ [CHR 0x27] @
        '' returned non-zero exit status '' @ str_int returncode @ ''. '')"

definition cpe_str :: "py_text \<Rightarrow> int \<Rightarrow> string list \<Rightarrow> bytes option \<Rightarrow> bytes option \<Rightarrow> string" where
  "cpe_str px returncode c out err =
     cpe_base px returncode c @ [CHR 0x0A] @ ''stdout: '' @ str_output px out @
     [CHR 0x0A] @ ''stderr: '' @ str_output px err"


section \<open>Path resolver: \<open>resolve_proc_root_links\<close>\<close>

text \<open>\<open>str.split(sep)\<close> for a one-character separator.\<close>

fun split_on :: "char \<Rightarrow> string \<Rightarrow> string list" where
  "split_on c [] = [[]]"
| "split_on c (x # xs) =
     (if x = c then [] # split_on c xs
      else (case split_on c xs of
              [] \<Rightarrow> [[x]]
            | w # ws \<Rightarrow> (x # w) # ws))"

text \<open>
  \<open>Path(s).parts\<close> for a POSIX path: the root, if any (exactly two leading slashes
  are kept as \<open>//\<close>, any other number is one slash), then the components that are
  neither empty nor a single dot.
\<close>

definition components :: "string \<Rightarrow> string list" where
  "components rel = filter (\<lambda>x. x \<noteq> [] \<and> x \<noteq> ''.'') (split_on CHR ''/'' rel)"

definition path_parts :: "string \<Rightarrow> string list" where
  "path_parts s =
     (case s of
        [] \<Rightarrow> []
      | c # _ \<Rightarrow>
          if c = CHR ''/'' then
            (let stripped = dropWhile (\<lambda>x. x = CHR ''/'') s in
             (if length s - length stripped = 2 then ''//'' else ''/'') # components stripped)
          else components s)"

text \<open>\<open>os.path.isabs\<close> and \<open>os.path.join\<close> of two paths (\<open>posixpath\<close>).\<close>

definition isabs :: "string \<Rightarrow> bool" where
  "isabs s = (case s of [] \<Rightarrow> False | c # _ \<Rightarrow> c = CHR ''/'')"

definition path_join :: "string \<Rightarrow> string \<Rightarrow> string" where
  "path_join a b =
     (if isabs b then b
      else if a = [] \<or> last a = CHR ''/'' then a @ b
      else a @ ''/'' @ b)"

text \<open>
  One round of the loop. The file system is seen through \<open>readlink\<close>: \<open>Some target\<close>
  where \<open>os.path.islink\<close> holds, \<open>None\<close> elsewhere.
\<close>

definition resolve_step :: "(string \<Rightarrow> string option) \<Rightarrow> string \<Rightarrow> string \<Rightarrow> string \<Rightarrow> string" where
  "resolve_step readlink proc_root path part =
     (let next_path = path_join path part in
      case readlink next_path of
        None \<Rightarrow> next_path
      | Some link \<Rightarrow>
          if isabs link then proc_root @ link
          else path_join path link)"

definition resolve_proc_root_links ::
  "(string \<Rightarrow> string option) \<Rightarrow> string \<Rightarrow> string \<Rightarrow> exc + string" where
  "resolve_proc_root_links readlink proc_root ns_path =
     (case path_parts ns_path of
        [] \<Rightarrow> Inl IndexError
      | p0 # rest \<Rightarrow>
          if p0 \<noteq> ''/'' then Inl (AssertionError ''expected absolute path'')
          else Inr (foldl (resolve_step readlink proc_root) proc_root rest))"

section \<open>Output locator: \<open>wait_event\<close>, \<open>wait_for_file_by_prefix\<close>\<close>

text \<open>
  One round of \<open>wait_event\<close> as the environment answers it: the files present when the
  condition is evaluated, the result of \<open>stop_event.wait(0.1)\<close> and the clock after it.
  The files are the paths as \<open>glob\<close> reports them.
\<close>

record wait_round =
  present :: "string list"
  stop_set :: bool
  clock :: rat

text \<open>
  \<open>glob.glob(prefix + "*")\<close> over the files present, for a prefix without pattern
  characters: the paths that start with the prefix and have no further directory
  separator; a leading dot of a file name is not matched by the star.
\<close>

definition star_match :: "string \<Rightarrow> string \<Rightarrow> bool" where
  "star_match pfx f =
     (prefix pfx f \<and>
      (let rest = drop (length pfx) f in
       CHR ''/'' \<notin> set rest \<and>
       \<not> ((pfx = [] \<or> last pfx = CHR ''/'') \<and> rest \<noteq> [] \<and> hd rest = CHR ''.'')))"

definition glob_prefix :: "string list \<Rightarrow> string \<Rightarrow> string list" where
  "glob_prefix fs pfx = filter (star_match pfx) fs"

fun wait_event :: "rat \<Rightarrow> (wait_round \<Rightarrow> bool) \<Rightarrow> wait_round list \<Rightarrow> (exc + unit) option" where
  "wait_event end_time condition [] = None"
| "wait_event end_time condition (r # rs) =
     (if condition r then Some (Inr ())
      else if stop_set r then Some (Inl StopEventSetException)
      else if clock r > end_time then Some (Inl TimeoutError)
      else wait_event end_time condition rs)"

text \<open>\<open>os.unlink\<close> on the files present, and the loop over \<open>output_files[:-1]\<close>.\<close>

definition unlink :: "string list \<Rightarrow> string \<Rightarrow> exc + string list" where
  "unlink fs f = (if f \<in> set fs then Inr (removeAll f fs) else Inl (Foreign ''FileNotFoundError''))"

fun unlink_all :: "string list \<Rightarrow> string list \<Rightarrow> exc option \<times> string list" where
  "unlink_all fs [] = (None, fs)"
| "unlink_all fs (f # rest) =
     (case unlink fs f of
        Inl e \<Rightarrow> (Some e, fs)
      | Inr fs' \<Rightarrow> unlink_all fs' rest)"

text \<open>
  The part of \<open>wait_for_file_by_prefix\<close> after the wait, on the files present at the
  second listing: the result and the files left.
\<close>

definition pick_output :: "string list \<Rightarrow> string \<Rightarrow> (exc + string) \<times> string list" where
  "pick_output fs pfx =
     (let output_files = glob_prefix fs pfx in
      if length output_files \<noteq> 1 then
        (let sorted_files = sort output_files in
         case unlink_all fs (butlast sorted_files) of
           (Some e, fs') \<Rightarrow> (Inl e, fs')
         | (None, fs') \<Rightarrow>
             (case (if sorted_files = [] then [] else [last sorted_files]) of
                [] \<Rightarrow> (Inl IndexError, fs')
              | f # _ \<Rightarrow> (Inr f, fs')))
      else (Inr (hd output_files), fs))"

text \<open>
  \<open>wait_for_file_by_prefix\<close>: \<open>t0\<close> is the clock when the wait starts, \<open>rounds\<close> the
  answers of the environment during the wait, \<open>fs\<close> the files present after it. The
  \<open>Path\<close> returned is given by the string it is built from.
\<close>

definition wait_for_file_by_prefix ::
  "string \<Rightarrow> rat \<Rightarrow> rat \<Rightarrow> wait_round list \<Rightarrow> string list \<Rightarrow> ((exc + string) \<times> string list) option" where
  "wait_for_file_by_prefix pfx tmo t0 rounds fs =
     (case wait_event (t0 + tmo) (\<lambda>r. length (glob_prefix (present r) pfx) > 0) rounds of
        None \<Rightarrow> None
      | Some (Inl e) \<Rightarrow> Some (Inl e, fs)
      | Some (Inr _) \<Rightarrow> Some (pick_output fs pfx))"

section \<open>Reading the event log, and concrete environments\<close>

text \<open>A step of the worker thread failed when libc returned a code other than 0.\<close>

fun failed :: "event \<Rightarrow> bool" where
  "failed (Unshare _ rc) = (rc \<noteq> 0)"
| "failed (Setns _ rc) = (rc \<noteq> 0)"
| "failed Callback = False"

text \<open>
  Kernels used as concrete inputs: a thread already in the namespaces of process 1; an
  unprivileged thread in other namespaces; a privileged thread in other namespaces
  where the lock name is bound already in the network namespace of process 1; a
  thread in the namespaces of process 1 where the lock name is bound already; and one
  where the bind is refused with \<open>EACCES\<close>.
\<close>

definition host_kernel :: kernel where
  "host_kernel = \<lparr>self_ns = (\<lambda>_. Some 1), thread_ns = (\<lambda>_. Some 1),
     proc_ns = (\<lambda>_ _. Some 1), unshare_ok = (\<lambda>_. True),
     setns_ok = (\<lambda>_. True), new_ns = 2, bind_errno = (\<lambda>_ _. None)\<rparr>"

definition unprivileged_kernel :: kernel where
  "unprivileged_kernel = \<lparr>self_ns = (\<lambda>_. Some 7), thread_ns = (\<lambda>_. Some 7),
     proc_ns = (\<lambda>_ _. Some 1), unshare_ok = (\<lambda>_. False),
     setns_ok = (\<lambda>_. False), new_ns = 8, bind_errno = (\<lambda>_ _. None)\<rparr>"

definition locked_kernel :: kernel where
  "locked_kernel = \<lparr>self_ns = (\<lambda>_. Some 7), thread_ns = (\<lambda>_. Some 7),
     proc_ns = (\<lambda>_ _. Some 1), unshare_ok = (\<lambda>_. True),
     setns_ok = (\<lambda>_. True), new_ns = 8,
     bind_errno = (\<lambda>net _. if net = Some 1 then Some 98 else None)\<rparr>"

definition busy_kernel :: kernel where
  "busy_kernel = \<lparr>self_ns = (\<lambda>_. Some 1), thread_ns = (\<lambda>_. Some 1),
     proc_ns = (\<lambda>_ _. Some 1), unshare_ok = (\<lambda>_. True),
     setns_ok = (\<lambda>_. True), new_ns = 2, bind_errno = (\<lambda>_ _. Some 98)\<rparr>"

definition denied_kernel :: kernel where
  "denied_kernel = \<lparr>self_ns = (\<lambda>_. Some 1), thread_ns = (\<lambda>_. Some 1),
     proc_ns = (\<lambda>_ _. Some 1), unshare_ok = (\<lambda>_. True),
     setns_ok = (\<lambda>_. True), new_ns = 2, bind_errno = (\<lambda>_ _. Some 13)\<rparr>"

text \<open>Two callbacks: one returns \<open>None\<close>, one returns 5.\<close>

definition returns_none :: "kernel \<Rightarrow> exc + nat option" where
  "returns_none k = Inr None"

definition returns_five :: "kernel \<Rightarrow> exc + nat option" where
  "returns_five k = Inr (Some 5)"

text \<open>
  A round of the polling loop after which the loop goes on: the child is still running,
  the stop event is not set and the deadline, if any, has not passed.
\<close>

definition quiet :: "rat option \<Rightarrow> tick \<Rightarrow> bool" where
  "quiet et t = (child t = Running \<and> \<not> is_set t \<and> \<not> (et \<noteq> None \<and> now t > the et))"




definition running_tick :: tick where
  "running_tick = \<lparr>child = Running, is_set = False, now = 1\<rparr>"

definition exit3_tick :: tick where
  "exit3_tick = \<lparr>child = Exited 3 (Some ''out'') (Some ''err''), is_set = False, now = 2\<rparr>"

definition killed_tick :: tick where
  "killed_tick = \<lparr>child = Exited (- 9) (Some ''out'') (Some ''err''), is_set = False, now = 1\<rparr>"

definition sleep_args :: run_args where
  "sleep_args = \<lparr>command = CmdList [''sleep'', ''100''], has_stop_event = False,
     via_staticx = False, check = True, timeout = Some 5, kill_signal = 9,
     communicate = True, stdin = None\<rparr>"

definition stoppable_args :: run_args where
  "stoppable_args = \<lparr>command = CmdList [''sleep'', ''100''], has_stop_event = True,
     via_staticx = False, check = True, timeout = Some 5, kill_signal = 9,
     communicate = True, stdin = None\<rparr>"

definition slow_env :: proc_env where
  "slow_env = \<lparr>staticx_dir = None, clock0 = 0,
     ticks = map (\<lambda>n. \<lparr>child = Running, is_set = False, now = of_nat n\<rparr>)
               [1, 2, 3, 4, 5, 6, 7, 8, 9, 10],
     dies_on = (\<lambda>_. True)\<rparr>"

definition stopped_env :: proc_env where
  "stopped_env = \<lparr>staticx_dir = None, clock0 = 0,
     ticks = [\<lparr>child = Running, is_set = False, now = 1\<rparr>,
              \<lparr>child = Running, is_set = True, now = 2\<rparr>],
     dies_on = (\<lambda>_. True)\<rparr>"

definition failing_env :: proc_env where
  "failing_env = \<lparr>staticx_dir = None, clock0 = 0,
     ticks = [running_tick, exit3_tick],
     dies_on = (\<lambda>_. True)\<rparr>"

definition killed_env :: proc_env where
  "killed_env = \<lparr>staticx_dir = None, clock0 = 0,
     ticks = [killed_tick],
     dies_on = (\<lambda>_. True)\<rparr>"

text \<open>A rendering of strings and byte strings in quotes, and a table with one signal.\<close>

definition plain_text :: py_text where
  "plain_text = \<lparr>repr_str = (\<lambda>s. [CHR 0x27] @ s @ [CHR 0x27]),
     repr_bytes = (\<lambda>s. ''b'' @ [CHR 0x27] @ s @ [CHR 0x27]),
     signal_name = (\<lambda>n. if n = 9 then Some ''SIGKILL'' else None)\<rparr>"

text \<open>
  File systems seen through \<open>readlink\<close>: one where \<open>abs\<close> under the base is a link
  to \<open>/etc/target\<close>, and one with an absolute link followed by a relative link that
  climbs with \<open>..\<close>.
\<close>

definition abs_link :: "string \<Rightarrow> string \<Rightarrow> string option" where
  "abs_link B p = (if p = path_join B ''abs'' then Some ''/etc/target'' else None)"

definition escape_links :: "string \<Rightarrow> string option" where
  "escape_links p =
     (if p = ''/proc/1/root/a'' then Some ''/x''
      else if p = ''/proc/1/root/x/b'' then Some ''../../etc''
      else None)"

text \<open>Three output files, and a wait that succeeds in its second round.\<close>

definition three_files :: "string list" where
  "three_files = [''prefix-002'', ''prefix-001'', ''prefix-003'']"

definition one_round :: "wait_round list" where
  "one_round = [\<lparr>present = [], stop_set = False, clock = 1\<rparr>,
                \<lparr>present = [''prefix-001''], stop_set = False, clock = 2\<rparr>]"

section \<open>Properties\<close>

subsection \<open>Namespace executor and mutex\<close>

lemma order_nstypes_eq:
  "order_nstypes nstypes = filter (\<lambda>ns. ns \<noteq> ''mnt'') nstypes @ filter (\<lambda>ns. ns = ''mnt'') nstypes"
proof (induction nstypes)
  case Nil
  show ?case by (simp add: order_nstypes_def)
next
  case (Cons a as)
  have ins0: "\<And>xs. insort_key mnt_key a xs = a # xs" if "a \<noteq> ''mnt''"
  proof -
    fix xs show "insort_key mnt_key a xs = a # xs"
      using that by (cases xs) (simp_all add: mnt_key_def)
  qed
  have ins1: "insort_key mnt_key ''mnt'' (ys @ zs) = ys @ ''mnt'' # zs"
    if "\<forall>y\<in>set ys. y \<noteq> ''mnt''" "\<forall>z\<in>set zs. z = ''mnt''" for ys zs
    using that
  proof (induction ys)
    case Nil
    then show ?case by (cases zs) (simp_all add: mnt_key_def)
  next
    case (Cons y ys)
    then show ?case by (simp add: mnt_key_def)
  qed
  show ?case
  proof (cases "a = ''mnt''")
    case True
    have "order_nstypes (a # as) = insort_key mnt_key ''mnt'' (order_nstypes as)"
      by (simp add: order_nstypes_def True)
    also have "\<dots> = filter (\<lambda>ns. ns \<noteq> ''mnt'') as @ ''mnt'' # filter (\<lambda>ns. ns = ''mnt'') as"
      unfolding Cons.IH by (rule ins1) simp_all
    finally show ?thesis by (simp add: True)
  next
    case False
    have "order_nstypes (a # as) = insort_key mnt_key a (order_nstypes as)"
      by (simp add: order_nstypes_def)
    then show ?thesis using False by (simp add: ins0 Cons.IH)
  qed
qed



lemma switch_ns_events:
  "switch_ns k pid xs = (r, k', evs) \<Longrightarrow>
     Callback \<notin> set evs \<and> (r = None \<longrightarrow> (\<forall>ev\<in>set evs. \<not> failed ev)) \<and>
     (\<forall>ev\<in>set (butlast evs). \<not> failed ev)"
proof (induction xs arbitrary: k r k' evs)
  case Nil
  then show ?case by simp
next
  case (Cons x xs)
  show ?case
  proof (cases "is_same_ns k pid x")
    case (Inl e)
    with Cons.prems show ?thesis by simp
  next
    case (Inr b)
    show ?thesis
    proof (cases b)
      case True
      with Inr Cons.prems have "switch_ns k pid xs = (r, k', evs)" by simp
      then show ?thesis by (rule Cons.IH)
    next
      case False
      show ?thesis
      proof (cases "ns_flag x")
        case None
        with Inr False Cons.prems show ?thesis by simp
      next
        case (Some flag)
        obtain rc1 k1 where u: "libc_unshare k x flag = (rc1, k1)" by (cases "libc_unshare k x flag")
        show ?thesis
        proof (cases "rc1 = 0")
          case rc1: False
          with Inr False Some u Cons.prems show ?thesis by auto
        next
          case rc1: True
          show ?thesis
          proof (cases "stat_ino (proc_ns k1 pid x)")
            case (Inl e)
            with Inr False Some u rc1 Cons.prems show ?thesis by auto
          next
            case st: (Inr i)
            obtain rc2 k2 where s: "libc_setns k1 pid x flag = (rc2, k2)"
              by (cases "libc_setns k1 pid x flag")
            show ?thesis
            proof (cases "rc2 = 0")
              case rc2: False
              with Inr False Some u rc1 st s Cons.prems show ?thesis by auto
            next
              case rc2: True
              obtain r3 k3 evs3 where rest: "switch_ns k2 pid xs = (r3, k3, evs3)"
                by (cases "switch_ns k2 pid xs")
              from Cons.IH [OF rest] have ih:
                "Callback \<notin> set evs3" "r3 = None \<longrightarrow> (\<forall>ev\<in>set evs3. \<not> failed ev)"
                "\<forall>ev\<in>set (butlast evs3). \<not> failed ev" by simp_all
              from Inr False Some u rc1 st s rc2 rest Cons.prems
              have e: "evs = Unshare x 0 # Setns x 0 # evs3" "r = r3" by simp_all
              show ?thesis using ih unfolding e by (cases evs3) auto
            qed
          qed
        qed
      qed
    qed
  qed
qed

text \<open>
  C8: the kinds are reordered so that every \<open>mnt\<close> entry comes after every other
  entry, the other entries keeping their order, and the joins are attempted in that
  order.
\<close>

theorem mount_namespace_last:
  "order_nstypes nstypes =
     filter (\<lambda>ns. ns \<noteq> ''mnt'') nstypes @ filter (\<lambda>ns. ns = ''mnt'') nstypes \<and>
   run_in_ns k nstypes callback pid =
     (case switch_and_run k pid
        (filter (\<lambda>ns. ns \<noteq> ''mnt'') nstypes @ filter (\<lambda>ns. ns = ''mnt'') nstypes) callback of
        (_, ret, evs) \<Rightarrow> (ret, evs))"
  by (simp add: run_in_ns_def order_nstypes_eq)

theorem mount_namespace_last_witness:
  "order_nstypes [''mnt'', ''net'', ''mnt'', ''pid'', ''uts''] =
     [''net'', ''pid'', ''uts'', ''mnt'', ''mnt'']"
  using mount_namespace_last [of "[''mnt'', ''net'', ''mnt'', ''pid'', ''uts'']" host_kernel returns_five 1]
  by simp



lemma order_single: "order_nstypes [x] = [x]"
  by (simp add: order_nstypes_def)

lemma switch_failure:
  assumes sw: "switch_ns k pid xs = (r, k', evs)" and f: "\<exists>ev\<in>set evs. failed ev"
  shows "r \<noteq> None \<and> Callback \<notin> set evs \<and> failed (last evs) \<and> (\<forall>ev\<in>set (butlast evs). \<not> failed ev)"
proof -
  from switch_ns_events [OF sw] have ev:
    "Callback \<notin> set evs" "r = None \<longrightarrow> (\<forall>ev\<in>set evs. \<not> failed ev)"
    "\<forall>ev\<in>set (butlast evs). \<not> failed ev" by simp_all
  from f obtain ev where "ev \<in> set evs" "failed ev" by auto
  with ev(3) have "failed (last evs)"
    by (auto simp: in_set_butlast_appendI dest!: split_list)
  with ev f show ?thesis by auto
qed

lemma run_in_ns_failure:
  assumes "\<exists>ev\<in>set (snd (run_in_ns k nstypes callback pid)). failed ev"
  shows "\<exists>evs. run_in_ns k nstypes callback pid = (None, evs) \<and> Callback \<notin> set evs \<and>
           failed (last evs) \<and> (\<forall>ev\<in>set (butlast evs). \<not> failed ev)"
proof -
  obtain r k' evs where sw: "switch_ns k pid (order_nstypes nstypes) = (r, k', evs)"
    by (cases "switch_ns k pid (order_nstypes nstypes)")
  have "set (snd (run_in_ns k nstypes callback pid)) \<subseteq> set evs \<union> {Callback}"
    using sw by (auto simp: run_in_ns_def switch_and_run_def split: sum.splits option.splits)
  with assms have f: "\<exists>ev\<in>set evs. failed ev" by auto
  from switch_failure [OF sw f] obtain e where e: "r = Some e" by auto
  have "run_in_ns k nstypes callback pid = (None, evs)"
    using sw e by (simp add: run_in_ns_def switch_and_run_def)
  with switch_failure [OF sw f] show ?thesis by simp
qed

lemma unprivileged_run:
  "run_in_ns unprivileged_kernel [''net''] cb 1 = (None, [Unshare ''net'' (- 1)])"
  by (simp add: run_in_ns_def switch_and_run_def order_single is_same_ns_def stat_ino_def
      ns_flag_def libc_unshare_def unprivileged_kernel_def)

text \<open>
  C3, as stated, fails: when \<open>unshare\<close> fails the caller of \<open>run_in_ns\<close> gets
  \<open>None\<close> and no exception, which is also what it gets from a callback that ran and
  returned \<open>None\<close>.
\<close>

theorem namespace_failure_counterexample:
  "run_in_ns unprivileged_kernel [''net''] returns_none 1 = (None, [Unshare ''net'' (- 1)]) \<and>
   fst (run_in_ns unprivileged_kernel [''net''] returns_none 1) =
   fst (run_in_ns host_kernel [''net''] returns_none 1) \<and>
   snd (run_in_ns host_kernel [''net''] returns_none 1) = [Callback]"
  by (simp add: run_in_ns_def switch_and_run_def order_single is_same_ns_def stat_ino_def
      ns_flag_def libc_unshare_def unprivileged_kernel_def host_kernel_def returns_none_def)

text \<open>
  C3, amended: when an \<open>unshare\<close> or \<open>setns\<close> step fails, the thread stops at that
  step (it is the last event and the only failed one), the callback is not invoked, and
  \<open>run_in_ns\<close> returns \<open>None\<close> to its caller. For the mutex, a failed namespace
  switch is reported with the message about an error and privileged mode, which differs
  from the message for a lock that is already taken; the result is \<open>False\<close> in both.
\<close>

theorem namespace_failure_aborts:
  "((\<exists>ev\<in>set (snd (run_in_ns k nstypes callback pid)). failed ev) \<longrightarrow>
      fst (run_in_ns k nstypes callback pid) = None \<and>
      Callback \<notin> set (snd (run_in_ns k nstypes callback pid)) \<and>
      failed (last (snd (run_in_ns k nstypes callback pid))) \<and>
      (\<forall>ev\<in>set (butlast (snd (run_in_ns k nstypes callback pid))). \<not> failed ev)) \<and>
   ((\<exists>ev\<in>set (snd (run_in_ns k [''net''] take_lock 1)). failed ev) \<longrightarrow>
      grab_gprofiler_mutex k gm = (Inr False, msg_lock_error, gm)) \<and>
   msg_lock_error \<noteq> msg_lock_taken"
proof (intro conjI impI)
  assume a: "\<exists>ev\<in>set (snd (run_in_ns k nstypes callback pid)). failed ev"
  from run_in_ns_failure [OF a] obtain evs where
    r: "run_in_ns k nstypes callback pid = (None, evs)" "Callback \<notin> set evs" "failed (last evs)"
      "\<forall>ev\<in>set (butlast evs). \<not> failed ev" by blast
  show "fst (run_in_ns k nstypes callback pid) = None" using r by simp
  show "Callback \<notin> set (snd (run_in_ns k nstypes callback pid))" using r by simp
  show "failed (last (snd (run_in_ns k nstypes callback pid)))" using r by simp
  show "\<forall>ev\<in>set (butlast (snd (run_in_ns k nstypes callback pid))). \<not> failed ev" using r by simp
next
  assume a: "\<exists>ev\<in>set (snd (run_in_ns k [''net''] take_lock 1)). failed ev"
  from run_in_ns_failure [OF a] obtain evs where "run_in_ns k [''net''] take_lock 1 = (None, evs)"
    by blast
  then show "grab_gprofiler_mutex k gm = (Inr False, msg_lock_error, gm)"
    by (simp add: grab_gprofiler_mutex_def)
next
  show "msg_lock_error \<noteq> msg_lock_taken"
    by (simp add: msg_lock_error_def msg_lock_taken_def)
qed

theorem namespace_failure_aborts_witness:
  "(\<exists>ev\<in>set (snd (run_in_ns unprivileged_kernel [''net''] take_lock 1)). failed ev) \<and>
   run_in_ns unprivileged_kernel [''net''] take_lock 1 = (None, [Unshare ''net'' (- 1)]) \<and>
   grab_gprofiler_mutex unprivileged_kernel None = (Inr False, msg_lock_error, None)"
proof -
  have h: "\<exists>ev\<in>set (snd (run_in_ns unprivileged_kernel [''net''] take_lock 1)). failed ev"
    by (simp add: unprivileged_run)
  from namespace_failure_aborts [of unprivileged_kernel "[''net'']" take_lock 1 None] h
  show ?thesis by (simp add: unprivileged_run)
qed

text \<open>
  C4: in \<open>_take_lock\<close> a bind that fails with \<open>EADDRINUSE\<close> returns
  \<open>(False, None)\<close> without raising, and a bind that fails with any other \<open>errno\<close>
  raises that error. In \<open>grab_gprofiler_mutex\<close> the first is reported as a lock
  already taken and the second as an error, never as contention.
\<close>

theorem bind_failure_outcomes:
  "(bind_errno k (thread_ns k ''net'') GPROFILER_LOCK = Some e \<longrightarrow>
      take_lock k = (if e = EADDRINUSE then Inr (Some (False, None)) else Inl (OSError e))) \<and>
   (switch_ns k 1 [''net''] = (None, k', evs) \<and>
    bind_errno k' (thread_ns k' ''net'') GPROFILER_LOCK = Some e \<longrightarrow>
      grab_gprofiler_mutex k gm =
        (Inr False, if e = EADDRINUSE then msg_lock_taken else msg_lock_error, gm))"
  by (auto simp: take_lock_def grab_gprofiler_mutex_def run_in_ns_def switch_and_run_def
      order_single)

theorem bind_failure_outcomes_witness:
  "bind_errno busy_kernel (thread_ns busy_kernel ''net'') GPROFILER_LOCK = Some 98 \<and>
   switch_ns busy_kernel 1 [''net''] = (None, busy_kernel, []) \<and>
   take_lock busy_kernel = Inr (Some (False, None)) \<and>
   grab_gprofiler_mutex busy_kernel None = (Inr False, msg_lock_taken, None) \<and>
   bind_errno denied_kernel (thread_ns denied_kernel ''net'') GPROFILER_LOCK = Some 13 \<and>
   switch_ns denied_kernel 1 [''net''] = (None, denied_kernel, []) \<and>
   take_lock denied_kernel = Inl (OSError 13) \<and>
   grab_gprofiler_mutex denied_kernel None = (Inr False, msg_lock_error, None)"
proof -
  have h1: "bind_errno busy_kernel (thread_ns busy_kernel ''net'') GPROFILER_LOCK = Some 98"
    by (simp add: busy_kernel_def)
  have h2: "switch_ns busy_kernel 1 [''net''] = (None, busy_kernel, [])"
    by (simp add: is_same_ns_def stat_ino_def busy_kernel_def)
  have g1: "bind_errno denied_kernel (thread_ns denied_kernel ''net'') GPROFILER_LOCK = Some 13"
    by (simp add: denied_kernel_def)
  have g2: "switch_ns denied_kernel 1 [''net''] = (None, denied_kernel, [])"
    by (simp add: is_same_ns_def stat_ino_def denied_kernel_def)
  from bind_failure_outcomes [of busy_kernel 98 busy_kernel "[]" None] h1 h2
  have b: "take_lock busy_kernel = Inr (Some (False, None)) \<and>
      grab_gprofiler_mutex busy_kernel None = (Inr False, msg_lock_taken, None)"
    by (simp add: EADDRINUSE_def)
  from bind_failure_outcomes [of denied_kernel 13 denied_kernel "[]" None] g1 g2
  have d: "take_lock denied_kernel = Inl (OSError 13) \<and>
      grab_gprofiler_mutex denied_kernel None = (Inr False, msg_lock_error, None)"
    by (simp add: EADDRINUSE_def)
  from h1 h2 b g1 g2 d show ?thesis by simp
qed

lemma locked_kernel_grab:
  "grab_gprofiler_mutex locked_kernel None = (Inr False, msg_lock_taken, None)"
  by (simp add: grab_gprofiler_mutex_def run_in_ns_def switch_and_run_def order_single
      is_same_ns_def stat_ino_def ns_flag_def libc_unshare_def libc_setns_def take_lock_def
      EADDRINUSE_def locked_kernel_def)

text \<open>
  The checks read the namespaces of the leader of the thread group, which the worker's
  joins leave as they were: a kind that is listed twice is joined twice.
\<close>

lemma repeated_kind_joined_twice:
  "snd (run_in_ns locked_kernel [''net'', ''net''] returns_none 1) =
     [Unshare ''net'' 0, Setns ''net'' 0, Unshare ''net'' 0, Setns ''net'' 0, Callback]"
  by (simp add: run_in_ns_def switch_and_run_def order_nstypes_def mnt_key_def
      is_same_ns_def stat_ino_def ns_flag_def libc_unshare_def libc_setns_def
      returns_none_def locked_kernel_def)

lemma host_kernel_grab:
  "grab_gprofiler_mutex host_kernel None =
     (Inr True, [], Some \<lparr>bound_to = GPROFILER_LOCK, cloexec = True\<rparr>)"
  by (simp add: grab_gprofiler_mutex_def run_in_ns_def switch_and_run_def order_single
      is_same_ns_def stat_ino_def take_lock_def host_kernel_def)

subsection \<open>Process supervisor\<close>

lemma poll_loop_not_cpe:
  "poll_loop a et ts = Some (Inl e, ops) \<Longrightarrow> \<forall>rc c out err. e \<noteq> CalledProcessError rc c out err"
  by (induction ts arbitrary: ops)
     (auto split: slice.splits if_splits option.splits prod.splits)

lemma blocking_not_cpe:
  "blocking ts = Some (Inl e) \<Longrightarrow> \<forall>rc c out err. e \<noteq> CalledProcessError rc c out err"
  by (induction ts) (auto split: slice.splits)

lemma supervise_not_cpe:
  "supervise a env = Some (Inl e, ops) \<Longrightarrow> \<forall>rc c out err. e \<noteq> CalledProcessError rc c out err"
  by (auto simp: supervise_def split: if_splits option.splits sum.splits prod.splits
      dest: poll_loop_not_cpe blocking_not_cpe)

lemma poll_loop_quiet:
  "\<forall>t\<in>set pre. quiet et t \<Longrightarrow>
   poll_loop a et (pre @ ts) =
     (case poll_loop a et ts of
        None \<Rightarrow> None
      | Some (r, ops) \<Rightarrow> Some (r, replicate (length pre) (Communicate (Some 1) (stdin a)) @ ops))"
  by (induction pre) (auto simp: quiet_def split: option.splits)

lemma poll_loop_failure_kinds:
  assumes "\<forall>x\<in>set pre. quiet et x"
  shows "poll_loop a et (pre @ t # rest) =
     (case child t of
        Exited rc out err \<Rightarrow>
          Some (Inr (rc, out, err), replicate (Suc (length pre)) (Communicate (Some 1) (stdin a)))
      | Raises n \<Rightarrow>
          Some (Inl (Foreign n), replicate (Suc (length pre)) (Communicate (Some 1) (stdin a)))
      | Running \<Rightarrow>
          if is_set t
          then Some (Inl ProcessStoppedException,
                     replicate (Suc (length pre)) (Communicate (Some 1) (stdin a)))
          else if et \<noteq> None \<and> now t > the et
          then (case timeout a of
                  None \<Rightarrow> Some (Inl (AssertionError []),
                                replicate (Suc (length pre)) (Communicate (Some 1) (stdin a)))
                | Some tmo \<Rightarrow> Some (Inl (TimeoutExpired (command a) tmo),
                                   replicate (Suc (length pre)) (Communicate (Some 1) (stdin a))))
          else (case poll_loop a et rest of
                  None \<Rightarrow> None
                | Some (r, ops) \<Rightarrow>
                    Some (r, replicate (Suc (length pre)) (Communicate (Some 1) (stdin a)) @ ops)))"
  unfolding poll_loop_quiet [OF assms]
  by (auto simp: replicate_append_same split: slice.splits option.splits)

lemma stopped_supervise:
  "supervise stoppable_args stopped_env =
     Some (Inl ProcessStoppedException, [Communicate (Some 1) None, Communicate (Some 1) None])"
  by (simp add: supervise_def stoppable_args_def stopped_env_def end_time_of_def)

text \<open>
  C1: whenever the body of the \<open>try\<close> statement fails (the stop event was seen set,
  the timeout passed, or any other exception was raised), the child is sent the
  configured kill signal and waited on before that exception reaches the caller; and
  every exception that reaches the caller, other than the one for a bad exit status
  raised after the child was reaped, came this way. If the child does not die on the
  signal, the call does not return.
\<close>

theorem kill_and_reap_on_failure:
  "(supervise a env = Some (Inl e, pre) \<longrightarrow>
      run_process a env =
        (if dies_on env (kill_signal a)
         then Some (Inl e, pre @ [SendSignal (kill_signal a), Wait, ContextExit])
         else None)) \<and>
   (run_process a env = Some (Inl e, ops) \<and> (\<forall>rc c out err. e \<noteq> CalledProcessError rc c out err) \<longrightarrow>
      (\<exists>pre. supervise a env = Some (Inl e, pre) \<and>
             ops = pre @ [SendSignal (kill_signal a), Wait, ContextExit]))"
  by (auto simp: run_process_def Let_def split: option.splits sum.splits prod.splits if_splits)

theorem kill_and_reap_on_failure_witness:
  "supervise stoppable_args stopped_env =
     Some (Inl ProcessStoppedException, [Communicate (Some 1) None, Communicate (Some 1) None]) \<and>
   run_process stoppable_args stopped_env =
     Some (Inl ProcessStoppedException,
           [Communicate (Some 1) None, Communicate (Some 1) None, SendSignal 9, Wait, ContextExit]) \<and>
   (\<forall>rc c out err. ProcessStoppedException \<noteq> CalledProcessError rc c out err) \<and>
   (\<exists>pre. supervise stoppable_args stopped_env = Some (Inl ProcessStoppedException, pre) \<and>
      [Communicate (Some 1) None, Communicate (Some 1) None, SendSignal 9, Wait, ContextExit] =
      pre @ [SendSignal (kill_signal stoppable_args), Wait, ContextExit])"
proof -
  have d: "dies_on stopped_env 9"
    by (simp add: stopped_env_def)
  have k: "kill_signal stoppable_args = 9"
    by (simp add: stoppable_args_def)
  note t = kill_and_reap_on_failure [of stoppable_args stopped_env ProcessStoppedException
      "[Communicate (Some 1) None, Communicate (Some 1) None]"
      "[Communicate (Some 1) None, Communicate (Some 1) None, SendSignal 9, Wait, ContextExit]"]
  from t [THEN conjunct1, rule_format, OF stopped_supervise]
  have "run_process stoppable_args stopped_env =
     Some (Inl ProcessStoppedException,
           [Communicate (Some 1) None, Communicate (Some 1) None] @ [SendSignal 9, Wait, ContextExit])"
    by (simp only: k d if_True)
  then have r: "run_process stoppable_args stopped_env =
     Some (Inl ProcessStoppedException,
           [Communicate (Some 1) None, Communicate (Some 1) None, SendSignal 9, Wait, ContextExit])"
    by simp
  have n: "\<forall>rc c out err. ProcessStoppedException \<noteq> CalledProcessError rc c out err"
    by simp
  from t [THEN conjunct2, rule_format, OF conjI [OF r n]]
  have e: "\<exists>pre. supervise stoppable_args stopped_env = Some (Inl ProcessStoppedException, pre) \<and>
      [Communicate (Some 1) None, Communicate (Some 1) None, SendSignal 9, Wait, ContextExit] =
      pre @ [SendSignal (kill_signal stoppable_args), Wait, ContextExit]" .
  from stopped_supervise r n e show ?thesis by (intro conjI)
qed

text \<open>
  C2, as stated, fails: with a timeout of 5 and no stop event, and a child that is still
  running after ten rounds, the call neither waits for the child nor raises a timeout:
  the assertion \<open>timeout is None\<close> fails, the child is killed and reaped and the
  assertion error is raised.
\<close>

theorem timeout_without_stop_event_counterexample:
  "run_process sleep_args slow_env =
     Some (Inl (AssertionError ''expected no timeout''), [SendSignal 9, Wait, ContextExit])"
  by (simp add: run_process_def supervise_def sleep_args_def slow_env_def)

text \<open>
  C2, amended: a call with a timeout and without a stop event never waits for the child
  and never raises a timeout; it fails with the assertion error, after the child was
  sent the kill signal and reaped.
\<close>

theorem timeout_without_stop_event_asserts:
  assumes "\<not> has_stop_event a" and "timeout a = Some tmo"
  shows "run_process a env =
     (if dies_on env (kill_signal a)
      then Some (Inl (AssertionError ''expected no timeout''),
                 [SendSignal (kill_signal a), Wait, ContextExit])
      else None)"
  using assms by (simp add: run_process_def supervise_def)

theorem timeout_without_stop_event_asserts_witness:
  "\<not> has_stop_event sleep_args \<and> timeout sleep_args = Some 5 \<and>
   run_process sleep_args failing_env =
     Some (Inl (AssertionError ''expected no timeout''), [SendSignal 9, Wait, ContextExit])"
proof -
  have h1: "\<not> has_stop_event sleep_args" and h2: "timeout sleep_args = Some 5"
    by (simp_all add: sleep_args_def)
  from timeout_without_stop_event_asserts [OF h1 h2, of failing_env] h1 h2
  show ?thesis by (simp add: sleep_args_def failing_env_def)
qed

text \<open>With a stop event the timeout is enforced: the deadline passes in the sixth round.\<close>

lemma slow_ticks:
  "ticks slow_env = map (\<lambda>n. \<lparr>child = Running, is_set = False, now = of_nat n\<rparr>) [1, 2, 3, 4, 5] @
     \<lparr>child = Running, is_set = False, now = 6\<rparr> #
     map (\<lambda>n. \<lparr>child = Running, is_set = False, now = of_nat n\<rparr>) [7, 8, 9, 10]"
  by (simp add: slow_env_def)

lemma timeout_with_stop_event:
  "run_process stoppable_args slow_env =
     Some (Inl (TimeoutExpired (CmdList [''sleep'', ''100'']) 5),
           [Communicate (Some 1) None, Communicate (Some 1) None, Communicate (Some 1) None,
             Communicate (Some 1) None, Communicate (Some 1) None, Communicate (Some 1) None] @ [SendSignal 9, Wait, ContextExit])"
proof -
  have e: "end_time_of stoppable_args slow_env = Some 5"
    by (simp add: end_time_of_def stoppable_args_def slow_env_def)
  have q: "\<forall>x\<in>set (map (\<lambda>n. \<lparr>child = Running, is_set = False, now = of_nat n\<rparr>) [1, 2, 3, 4, 5::nat]).
      quiet (Some 5) x"
    by (simp add: quiet_def)
  have "poll_loop stoppable_args (Some 5) (ticks slow_env) =
      Some (Inl (TimeoutExpired (CmdList [''sleep'', ''100'']) 5),
            [Communicate (Some 1) None, Communicate (Some 1) None, Communicate (Some 1) None,
             Communicate (Some 1) None, Communicate (Some 1) None, Communicate (Some 1) None])"
    unfolding slow_ticks
    by (subst poll_loop_failure_kinds [OF q]) (simp add: stoppable_args_def)
  then have "supervise stoppable_args slow_env =
      Some (Inl (TimeoutExpired (CmdList [''sleep'', ''100'']) 5),
            [Communicate (Some 1) None, Communicate (Some 1) None, Communicate (Some 1) None,
             Communicate (Some 1) None, Communicate (Some 1) None, Communicate (Some 1) None])"
    using e by (simp add: supervise_def stoppable_args_def)
  then show ?thesis
    by (simp add: run_process_def stoppable_args_def slow_env_def)
qed


lemma str_int_9: "str_int 9 = ''9''"
  by code_simp

lemma killed_supervise:
  "supervise stoppable_args killed_env =
     Some (Inr (- 9, Some ''out'', Some ''err''), [Communicate (Some 1) None])"
  by (simp add: supervise_def stoppable_args_def killed_env_def killed_tick_def end_time_of_def)

lemma failing_supervise:
  "supervise stoppable_args failing_env =
     Some (Inr (3, Some ''out'', Some ''err''), [Communicate (Some 1) None, Communicate (Some 1) None])"
  by (simp add: supervise_def stoppable_args_def failing_env_def running_tick_def exit3_tick_def
      end_time_of_def)

lemma str_int_3: "str_int 3 = ''3''"
  by code_simp












lemma rendering_exit_status:
  "cpe_str plain_text 3 [''sleep'', ''100''] (Some ''out'') (Some ''err'') =
     ''Command '' @ [CHR 0x27] @ ''[''@ [CHR 0x27] @ ''sleep'' @ [CHR 0x27] @ '', '' @ [CHR 0x27] @
     ''100'' @ [CHR 0x27] @ '']'' @ [CHR 0x27] @ '' returned non-zero exit status 3. '' @ [CHR 0x0A] @
     ''stdout: b'' @ [CHR 0x27] @ ''out'' @ [CHR 0x27] @ [CHR 0x0A] @
     ''stderr: b'' @ [CHR 0x27] @ ''err'' @ [CHR 0x27]"
  by (simp add: cpe_str_def cpe_base_def str_list_def str_output_def plain_text_def str_int_3)

lemma rendering_signal:
  "cpe_base plain_text (- 9) [''sleep''] =
     ''Command '' @ [CHR 0x27] @ ''['' @ [CHR 0x27] @ ''sleep'' @ [CHR 0x27] @ '']'' @ [CHR 0x27] @
     '' died with <Signals.SIGKILL: 9>.''"
  by (simp add: cpe_base_def str_list_def plain_text_def repr_signal_def str_int_9)

subsection \<open>Path resolver\<close>

lemma split_on_no_sep: "w \<in> set (split_on c s) \<Longrightarrow> c \<notin> set w"
  by (induction s arbitrary: w) (auto split: if_splits list.splits)

lemma components_relative: "x \<in> set (components rel) \<Longrightarrow> \<not> isabs x"
  by (auto simp: components_def isabs_def dest: split_on_no_sep split: list.splits)

lemma path_parts_relative:
  assumes "path_parts s = p0 # rest" and "x \<in> set rest"
  shows "\<not> isabs x"
proof -
  from assms(1) have
    "rest = components (dropWhile (\<lambda>x. x = CHR ''/'') s) \<or> components s = p0 # rest"
    by (auto simp: path_parts_def Let_def split: list.splits if_splits)
  with assms(2) have
    "x \<in> set (components (dropWhile (\<lambda>x. x = CHR ''/'') s)) \<or> x \<in> set (components s)"
    by auto
  then show ?thesis by (auto dest: components_relative)
qed

lemma path_join_prefix: "\<not> isabs b \<Longrightarrow> prefix a (path_join a b)"
  by (simp add: path_join_def)

lemma resolve_step_prefix:
  assumes "prefix B path" "\<not> isabs part"
  shows "prefix B (resolve_step readlink B path part)"
proof (cases "readlink (path_join path part)")
  case None
  with assms show ?thesis
    by (auto simp: resolve_step_def Let_def intro: prefix_order.order_trans path_join_prefix)
next
  case (Some link)
  with assms show ?thesis
    by (auto simp: resolve_step_def Let_def intro: prefix_order.order_trans path_join_prefix)
qed

lemma foldl_resolve_prefix:
  "prefix B path \<Longrightarrow> \<forall>x\<in>set parts. \<not> isabs x \<Longrightarrow>
     prefix B (foldl (resolve_step readlink B) path parts)"
  by (induction parts arbitrary: path) (simp_all add: resolve_step_prefix)

lemma single_slash_resolves:
  "ns_path = CHR ''/'' # r \<Longrightarrow> (r = [] \<or> hd r \<noteq> CHR ''/'') \<Longrightarrow>
     \<exists>p. resolve_proc_root_links readlink proc_root ns_path = Inr p"
  by (cases r) (auto simp: resolve_proc_root_links_def path_parts_def Let_def)

lemma parts_abs_file: "path_parts ''/abs/file'' = [''/'', ''abs'', ''file'']"
  by (simp add: path_parts_def components_def)

lemma escape_links_resolve:
  "resolve_proc_root_links escape_links ''/proc/1/root'' ''/a/b/passwd'' =
     Inr ''/proc/1/root/x/../../etc/passwd''"
  by (simp add: resolve_proc_root_links_def path_parts_def components_def resolve_step_def
      Let_def path_join_def isabs_def escape_links_def)

lemma parts_a_b_passwd: "path_parts ''/a/b/passwd'' = [''/'', ''a'', ''b'', ''passwd'']"
  by (simp add: path_parts_def components_def)

text \<open>
  C6: in each round, when the path joined so far is a link with an absolute target, the
  next path is the base followed by the target; with a relative target it is the target
  joined to the current directory; otherwise it is the joined path. The resolver folds
  these rounds over the components after the root. With \<open>abs\<close> under \<open>B\<close> a link to
  \<open>/etc/target\<close>, resolving \<open>/abs/file\<close> gives \<open>B/etc/target/file\<close>.
\<close>

theorem absolute_link_rerooted:
  "(readlink (path_join path1 part1) = Some link1 \<and> isabs link1 \<longrightarrow>
      resolve_step readlink B path1 part1 = B @ link1) \<and>
   (readlink (path_join path2 part2) = Some link2 \<and> \<not> isabs link2 \<longrightarrow>
      resolve_step readlink B path2 part2 = path_join path2 link2) \<and>
   (readlink (path_join path3 part3) = None \<longrightarrow>
      resolve_step readlink B path3 part3 = path_join path3 part3) \<and>
   (path_parts ns_path = ''/'' # rest \<longrightarrow>
      resolve_proc_root_links readlink B ns_path = Inr (foldl (resolve_step readlink B) B rest)) \<and>
   resolve_proc_root_links (abs_link B) B ''/abs/file'' = Inr (B @ ''/etc/target/file'')"
proof (intro conjI impI)
  have j: "path_join (B @ ''/etc/target'') ''file'' = B @ ''/etc/target/file''"
    by (simp add: path_join_def isabs_def)
  have n: "B @ ''/etc/target/file'' \<noteq> path_join B ''abs''"
    by (simp add: path_join_def isabs_def)
  show "resolve_proc_root_links (abs_link B) B ''/abs/file'' = Inr (B @ ''/etc/target/file'')"
    using n by (simp add: resolve_proc_root_links_def parts_abs_file resolve_step_def abs_link_def
        Let_def isabs_def j)
qed (auto simp: resolve_step_def Let_def resolve_proc_root_links_def)

theorem absolute_link_rerooted_witness:
  "escape_links (path_join ''/proc/1/root'' ''a'') = Some ''/x'' \<and> isabs ''/x'' \<and>
   resolve_step escape_links ''/proc/1/root'' ''/proc/1/root'' ''a'' = ''/proc/1/root/x'' \<and>
   escape_links (path_join ''/proc/1/root/x'' ''b'') = Some ''../../etc'' \<and> \<not> isabs ''../../etc'' \<and>
   resolve_step escape_links ''/proc/1/root'' ''/proc/1/root/x'' ''b'' = ''/proc/1/root/x/../../etc'' \<and>
   escape_links (path_join ''/proc/1/root/x/../../etc'' ''passwd'') = None \<and>
   resolve_step escape_links ''/proc/1/root'' ''/proc/1/root/x/../../etc'' ''passwd'' =
     ''/proc/1/root/x/../../etc/passwd'' \<and>
   path_parts ''/a/b/passwd'' = ''/'' # [''a'', ''b'', ''passwd''] \<and>
   resolve_proc_root_links escape_links ''/proc/1/root'' ''/a/b/passwd'' =
     Inr (foldl (resolve_step escape_links ''/proc/1/root'') ''/proc/1/root'' [''a'', ''b'', ''passwd'']) \<and>
   resolve_proc_root_links (abs_link ''/proc/1/root'') ''/proc/1/root'' ''/abs/file'' =
     Inr ''/proc/1/root/etc/target/file''"
proof -
  have h1: "escape_links (path_join ''/proc/1/root'' ''a'') = Some ''/x'' \<and> isabs ''/x''"
    by (simp add: escape_links_def path_join_def isabs_def)
  have h2: "escape_links (path_join ''/proc/1/root/x'' ''b'') = Some ''../../etc'' \<and>
      \<not> isabs ''../../etc''"
    by (simp add: escape_links_def path_join_def isabs_def)
  have h3: "escape_links (path_join ''/proc/1/root/x/../../etc'' ''passwd'') = None"
    by (simp add: escape_links_def path_join_def isabs_def)
  have j2: "path_join ''/proc/1/root/x'' ''../../etc'' = ''/proc/1/root/x/../../etc''"
    by (simp add: path_join_def isabs_def)
  have j3: "path_join ''/proc/1/root/x/../../etc'' ''passwd'' = ''/proc/1/root/x/../../etc/passwd''"
    by (simp add: path_join_def isabs_def)
  note t = absolute_link_rerooted [of escape_links "''/proc/1/root''" "''a''" "''/x''"
      "''/proc/1/root''" "''/proc/1/root/x''" "''b''" "''../../etc''"
      "''/proc/1/root/x/../../etc''" "''passwd''" "''/a/b/passwd''" "[''a'', ''b'', ''passwd'']"]
  from t h1 have c1: "resolve_step escape_links ''/proc/1/root'' ''/proc/1/root'' ''a'' =
      ''/proc/1/root'' @ ''/x''" by blast
  from t h2 have c2: "resolve_step escape_links ''/proc/1/root'' ''/proc/1/root/x'' ''b'' =
      path_join ''/proc/1/root/x'' ''../../etc''" by blast
  from t h3 have c3: "resolve_step escape_links ''/proc/1/root'' ''/proc/1/root/x/../../etc'' ''passwd'' =
      path_join ''/proc/1/root/x/../../etc'' ''passwd''" by blast
  from t parts_a_b_passwd have c4: "resolve_proc_root_links escape_links ''/proc/1/root'' ''/a/b/passwd'' =
     Inr (foldl (resolve_step escape_links ''/proc/1/root'') ''/proc/1/root'' [''a'', ''b'', ''passwd''])"
    by blast
  from t have c5: "resolve_proc_root_links (abs_link ''/proc/1/root'') ''/proc/1/root'' ''/abs/file'' =
     Inr (''/proc/1/root'' @ ''/etc/target/file'')" by blast
  have c1': "resolve_step escape_links ''/proc/1/root'' ''/proc/1/root'' ''a'' = ''/proc/1/root/x''"
    using c1 by simp
  have c5': "resolve_proc_root_links (abs_link ''/proc/1/root'') ''/proc/1/root'' ''/abs/file'' =
     Inr ''/proc/1/root/etc/target/file''"
    using c5 by simp
  have h3': "escape_links ''/proc/1/root/x/../../etc/passwd'' = None"
    using h3 unfolding j3 .
  show ?thesis
    by (intro conjI) (simp_all only: h1 h2 h3' c1' c2 j2 c3 j3 parts_a_b_passwd c4 c5' simp_thms)
qed

text \<open>
  C10: whatever \<open>readlink\<close> answers, a path that the resolver returns starts with the
  base directory string. (It is the string that has the prefix: components \<open>..\<close> of
  the input or of a relative target are kept as they are.)
\<close>

theorem resolved_path_under_base:
  assumes "resolve_proc_root_links readlink proc_root ns_path = Inr p"
  shows "prefix proc_root p"
proof -
  from assms obtain rest where pp: "path_parts ns_path = ''/'' # rest"
    and p: "p = foldl (resolve_step readlink proc_root) proc_root rest"
    by (auto simp: resolve_proc_root_links_def split: list.splits if_splits)
  from pp have "\<forall>x\<in>set rest. \<not> isabs x" by (auto dest: path_parts_relative)
  then show ?thesis unfolding p by (intro foldl_resolve_prefix) simp_all
qed

theorem resolved_path_under_base_witness:
  "resolve_proc_root_links escape_links ''/proc/1/root'' ''/a/b/passwd'' =
     Inr ''/proc/1/root/x/../../etc/passwd'' \<and>
   prefix ''/proc/1/root'' ''/proc/1/root/x/../../etc/passwd''"
  using resolved_path_under_base [OF escape_links_resolve] escape_links_resolve by simp

subsection \<open>Output locator\<close>

lemma sorted_le_last: "sorted xs \<Longrightarrow> x \<in> set xs \<Longrightarrow> x \<le> last xs"
proof (induction xs)
  case Nil
  then show ?case by simp
next
  case (Cons a xs)
  show ?case
  proof (cases "xs = []")
    case True
    with Cons.prems show ?thesis by simp
  next
    case False
    then have l: "last (a # xs) = last xs" by simp
    from False have m: "last xs \<in> set xs" by simp
    from Cons.prems(1) have s: "sorted xs" and a: "\<forall>y\<in>set xs. a \<le> y" by simp_all
    show ?thesis
    proof (cases "x = a")
      case True
      with a m show ?thesis unfolding l by blast
    next
      case False
      with Cons.prems(2) have "x \<in> set xs" by simp
      with Cons.IH s show ?thesis unfolding l by blast
    qed
  qed
qed

lemma set_butlast_distinct: "distinct xs \<Longrightarrow> set (butlast xs) = set xs - {last xs}"
proof -
  assume d: "distinct xs"
  show ?thesis
  proof (cases "xs = []")
    case True
    then show ?thesis by simp
  next
    case False
    then have e: "xs = butlast xs @ [last xs]" by simp
    with d have "distinct (butlast xs @ [last xs])" by simp
    then have n: "last xs \<notin> set (butlast xs)" by simp
    have "set xs = set (butlast xs) \<union> {last xs}"
      by (subst e) simp
    with n show ?thesis by blast
  qed
qed

lemma filter_removeAll: "filter P (removeAll x fs) = filter (\<lambda>f. f \<noteq> x \<and> P f) fs"
  by (induction fs) auto

lemma unlink_all_ok:
  "distinct xs \<Longrightarrow> set xs \<subseteq> set fs \<Longrightarrow>
     unlink_all fs xs = (None, filter (\<lambda>f. f \<notin> set xs) fs)"
proof (induction xs arbitrary: fs)
  case Nil
  then show ?case by simp
next
  case (Cons x xs)
  from Cons.prems have x: "x \<in> set fs" and d: "distinct xs" and nx: "x \<notin> set xs"
    and sub: "set xs \<subseteq> set (removeAll x fs)" by auto
  have "unlink_all (removeAll x fs) xs = (None, filter (\<lambda>f. f \<notin> set xs) (removeAll x fs))"
    using d sub by (rule Cons.IH)
  moreover have "filter (\<lambda>f. f \<notin> set xs) (removeAll x fs) = filter (\<lambda>f. f \<notin> set (x # xs)) fs"
    unfolding filter_removeAll by (rule filter_cong) auto
  ultimately show ?case using x by (simp add: unlink_def)
qed

lemma pick_output_many:
  assumes d: "distinct fs" and n: "length (glob_prefix fs pfx) > 1"
  shows "pick_output fs pfx =
     (Inr (last (sort (glob_prefix fs pfx))),
      filter (\<lambda>f. f \<notin> set (butlast (sort (glob_prefix fs pfx)))) fs)"
proof -
  let ?ms = "glob_prefix fs pfx"
  have dm: "distinct ?ms" using d by (simp add: glob_prefix_def)
  have sub: "set ?ms \<subseteq> set fs" by (auto simp: glob_prefix_def)
  have ne: "sort ?ms \<noteq> []" using n by (metis length_sort list.size(3) not_less_zero)
  have "distinct (butlast (sort ?ms))" using dm by (simp add: distinct_butlast)
  moreover have "set (butlast (sort ?ms)) \<subseteq> set fs"
  proof -
    have "set (butlast (sort ?ms)) \<subseteq> set (sort ?ms)" by (auto dest: in_set_butlastD)
    with sub show ?thesis by simp
  qed
  ultimately have u: "unlink_all fs (butlast (sort ?ms)) =
      (None, filter (\<lambda>f. f \<notin> set (butlast (sort ?ms))) fs)"
    by (rule unlink_all_ok)
  from n have "length ?ms \<noteq> 1" by simp
  then show ?thesis using u ne by (simp add: pick_output_def Let_def)
qed

lemma glob_three:
  "glob_prefix three_files ''prefix-'' = [''prefix-002'', ''prefix-001'', ''prefix-003'']"
  by (simp add: glob_prefix_def three_files_def star_match_def)

lemma sort_three:
  "sort [''prefix-002'', ''prefix-001'', ''prefix-003''] = [''prefix-001'', ''prefix-002'', ''prefix-003'']"
  by code_simp

lemma wait_one_round:
  "wait_event (0 + 5) (\<lambda>r. length (glob_prefix (present r) ''prefix-'') > 0) one_round = Some (Inr ())"
  by (simp add: one_round_def glob_prefix_def star_match_def)

text \<open>
  C5: when the wait succeeds and more than one of the (distinct) files present matches,
  the call returns the greatest match in lexicographic order, without failing, and the
  files left are those present before except the other matches. With \<open>prefix-001\<close>,
  \<open>prefix-002\<close> and \<open>prefix-003\<close> present it returns \<open>prefix-003\<close> and only that
  file is left.
\<close>

theorem duplicates_removed:
  assumes "wait_event (t0 + tmo) (\<lambda>r. length (glob_prefix (present r) pfx) > 0) rounds = Some (Inr ())"
    and "distinct fs" and "length (glob_prefix fs pfx) > 1"
  shows "\<exists>kept left.
           wait_for_file_by_prefix pfx tmo t0 rounds fs = Some (Inr kept, left) \<and>
           kept = last (sort (glob_prefix fs pfx)) \<and>
           kept \<in> set (glob_prefix fs pfx) \<and>
           (\<forall>m\<in>set (glob_prefix fs pfx). m \<le> kept) \<and>
           left = filter (\<lambda>f. f \<notin> set (glob_prefix fs pfx) \<or> f = kept) fs"
proof -
  let ?ms = "glob_prefix fs pfx"
  let ?kept = "last (sort ?ms)"
  have dm: "distinct ?ms" using assms(2) by (simp add: glob_prefix_def)
  have ne: "sort ?ms \<noteq> []" using assms(3) by (metis length_sort list.size(3) not_less_zero)
  have k: "?kept \<in> set ?ms" using last_in_set [OF ne] by simp
  have le: "\<forall>m\<in>set ?ms. m \<le> ?kept"
    using sorted_le_last [of "sort ?ms"] by simp
  have "set (butlast (sort ?ms)) = set ?ms - {?kept}"
    using set_butlast_distinct [of "sort ?ms"] dm by simp
  then have feq: "filter (\<lambda>f. f \<notin> set (butlast (sort ?ms))) fs =
      filter (\<lambda>f. f \<notin> set ?ms \<or> f = ?kept) fs"
    by (intro filter_cong) auto
  have w: "wait_for_file_by_prefix pfx tmo t0 rounds fs = Some (pick_output fs pfx)"
    using assms(1) by (simp add: wait_for_file_by_prefix_def)
  have res: "wait_for_file_by_prefix pfx tmo t0 rounds fs =
      Some (Inr ?kept, filter (\<lambda>f. f \<notin> set ?ms \<or> f = ?kept) fs)"
    by (simp only: w pick_output_many [OF assms(2,3)] feq)
  show ?thesis
    by (intro exI conjI) (rule res, rule refl, rule k, rule le, rule refl)
qed

theorem duplicates_removed_witness:
  "wait_event (0 + 5) (\<lambda>r. length (glob_prefix (present r) ''prefix-'') > 0) one_round = Some (Inr ()) \<and>
   distinct three_files \<and> length (glob_prefix three_files ''prefix-'') > 1 \<and>
   wait_for_file_by_prefix ''prefix-'' 5 0 one_round three_files =
     Some (Inr ''prefix-003'', [''prefix-003''])"
proof -
  have d: "distinct three_files" by (simp add: three_files_def)
  have n: "length (glob_prefix three_files ''prefix-'') > 1" by (simp add: glob_three)
  have l: "last (sort (glob_prefix three_files ''prefix-'')) = ''prefix-003''"
    by (simp add: glob_three sort_three del: sort_key_simps)
  have f: "filter (\<lambda>f. f \<notin> set (glob_prefix three_files ''prefix-'') \<or> f = ''prefix-003'') three_files =
      [''prefix-003'']"
    unfolding glob_three by (simp add: three_files_def)
  from duplicates_removed [OF wait_one_round d n] obtain kept left where
    r: "wait_for_file_by_prefix ''prefix-'' 5 0 one_round three_files = Some (Inr kept, left)"
    and k: "kept = last (sort (glob_prefix three_files ''prefix-''))"
    and lf: "left = filter (\<lambda>f. f \<notin> set (glob_prefix three_files ''prefix-'') \<or> f = kept) three_files"
    by blast
  from k l have k3: "kept = ''prefix-003''" by (rule trans)
  from lf f have "left = [''prefix-003'']" unfolding k3 by (rule trans)
  with r k3 wait_one_round d n show ?thesis by simp
qed

lemma other_files_kept:
  "pick_output [''prefix-002'', ''other'', ''prefix-003'', ''prefix-001''] ''prefix-'' =
     (Inr ''prefix-003'', [''other'', ''prefix-003''])"
  by (simp add: pick_output_def glob_prefix_def star_match_def unlink_def sort_three)

lemma single_file:
  "pick_output [''other'', ''prefix-001''] ''prefix-'' = (Inr ''prefix-001'', [''other'', ''prefix-001''])"
  by (simp add: pick_output_def glob_prefix_def star_match_def)

end
